theory Spec2Isabelle
  imports Complex_Main
begin

section \<open>Client values\<close>

text \<open>
  \<^verbatim>\<open>json_validate.py\<close> is Python 2 code (\<^verbatim>\<open>unicode\<close>, the builtin \<^verbatim>\<open>reduce\<close>,
  old-style classes). The values it receives are decoded JSON documents: \<^verbatim>\<open>None\<close>,
  \<^verbatim>\<open>bool\<close>, \<^verbatim>\<open>int\<close>, \<^verbatim>\<open>long\<close> (what the decoder returns for an integer
  beyond the machine word), \<^verbatim>\<open>float\<close>, \<^verbatim>\<open>str\<close>, \<^verbatim>\<open>unicode\<close>, \<^verbatim>\<open>list\<close>
  and \<^verbatim>\<open>dict\<close>.

  A float is modelled by the exact rational value of the double it holds; the two
  infinities and the NaN are separate values. The code reads a float only through
  \<^verbatim>\<open>int(value) == value\<close> and through its truth value, and both depend on nothing
  but that exact value.

  A dict is an association list in the dict's iteration order; a lookup takes the
  first entry of a key. The keys of a JSON object are strings; \<^verbatim>\<open>str\<close> and
  \<^verbatim>\<open>unicode\<close> keys with the same characters are equal and hash alike in Python 2,
  so one type of keys is enough.
\<close>

datatype pyfloat = Finite rat | PosInf | NegInf | NaN

datatype pyval =
    PNone
  | PBool bool
  | PInt int
  | PLong int
  | PFloat pyfloat
  | PStr string
  | PUnicode string
  | PList "pyval list"
  | PDict "(string \<times> pyval) list"

datatype pytype =
  TNoneType | TBool | TInt | TLong | TFloat | TStr | TUnicode | TList | TDict

fun type_of :: "pyval \<Rightarrow> pytype" where
  "type_of PNone = TNoneType"
| "type_of (PBool b) = TBool"
| "type_of (PInt i) = TInt"
| "type_of (PLong i) = TLong"
| "type_of (PFloat f) = TFloat"
| "type_of (PStr s) = TStr"
| "type_of (PUnicode s) = TUnicode"
| "type_of (PList xs) = TList"
| "type_of (PDict kvs) = TDict"

text \<open>\<^verbatim>\<open>isinstance(value, t)\<close>: among these types the only subclass is \<^verbatim>\<open>bool\<close>, of
  \<^verbatim>\<open>int\<close>. In Python 2 a \<^verbatim>\<open>long\<close> is not an \<^verbatim>\<open>int\<close>.\<close>

definition isinstance :: "pyval \<Rightarrow> pytype \<Rightarrow> bool" where
  "isinstance v t = (type_of v = t \<or> (type_of v = TBool \<and> t = TInt))"

text \<open>The truth value of a client value, as \<^verbatim>\<open>if client_json:\<close> reads it.\<close>

fun truthy :: "pyval \<Rightarrow> bool" where
  "truthy PNone = False"
| "truthy (PBool b) = b"
| "truthy (PInt i) = (i \<noteq> 0)"
| "truthy (PLong i) = (i \<noteq> 0)"
| "truthy (PFloat (Finite r)) = (r \<noteq> 0)"
| "truthy (PFloat f) = True"
| "truthy (PStr s) = (s \<noteq> [])"
| "truthy (PUnicode s) = (s \<noteq> [])"
| "truthy (PList xs) = (xs \<noteq> [])"
| "truthy (PDict kvs) = (kvs \<noteq> [])"

section \<open>Paths and exceptions\<close>

text \<open>
  The path is the accessor expression the code builds as a string: a root label
  (\<^verbatim>\<open>'client_json'\<close> by default) followed by \<^verbatim>\<open>'[%s]' % repr(key)\<close> or
  \<^verbatim>\<open>'[%s]' % i\<close> for each step. It is kept as the list of its segments.
\<close>

datatype segment = Label string | Key string | Index nat

type_synonym path = "segment list"

text \<open>
  Every validation failure is a \<^verbatim>\<open>JSONException(msg)\<close>; the message is kept as the
  format string that built it, with its arguments:
  \<^item> \<open>Type_error path value (type of value) t\<close>: \<^verbatim>\<open>'Type error: %s = %s, which is of type %s.  A value of type %s is required'\<close>;
  \<^item> \<open>Key_error path key\<close>: \<^verbatim>\<open>'Key error:  missing key %s[%s]'\<close>;
  \<^item> \<open>One_of_none path keys\<close>: \<^verbatim>\<open>'%s requires one of these keys, but found none: %s'\<close>;
  \<^item> \<open>One_of_several path keys found\<close>: \<^verbatim>\<open>'%s requires one of these keys: %s, but found several: %s'\<close>;
  \<^item> \<open>Atleast_one_none path keys\<close>: \<^verbatim>\<open>'%s requires *at least* one of these keys, but found none: %s'\<close>;
  \<^item> \<open>Format_error path value pattern\<close>: \<^verbatim>\<open>'Format error:  %s = %s, does not match required pattern %s'\<close>.
  The specification calls them TypeMismatch, MissingKey, MissingOneOf, AmbiguousOneOf,
  MissingAtLeastOne and FormatMismatch.
\<close>

datatype message =
    Type_error path pyval pytype pytype
  | Key_error path string
  | One_of_none path "string list"
  | One_of_several path "string list" "string list"
  | Atleast_one_none path "string list"
  | Format_error path pyval string

text \<open>
  The exceptions a call of \<^verbatim>\<open>do_validate\<close> can end with, by class. Only
  \<^verbatim>\<open>JSONException\<close> is the module's own; the others are Python's:
  \<^item> \<open>TypeError Prohibited_type\<close>: the last branch of \<^verbatim>\<open>do_validate\<close>;
  \<^item> \<open>TypeError Expected_string_or_buffer\<close>: what the \<^verbatim>\<open>match\<close> method of a compiled
    regular expression raises for an argument that is not a string;
  \<^item> \<open>AssertionError\<close>: the \<^verbatim>\<open>assert\<close> on a list structure;
  \<^item> \<open>KeyError k\<close>: \<^verbatim>\<open>__getitem__\<close> of a wrapper or of a dict;
  \<^item> \<open>ValueError\<close>, \<open>OverflowError\<close>: \<^verbatim>\<open>int(value)\<close> for a NaN, an infinity.
\<close>

datatype type_error = Prohibited_type | Expected_string_or_buffer

datatype exn =
    JSONException message
  | TypeError type_error
  | AssertionError
  | KeyError string
  | ValueError
  | OverflowError

text \<open>Sequencing of two statements, the first of which may raise.\<close>

definition and_then :: "exn + unit \<Rightarrow> exn + 'a \<Rightarrow> exn + 'a" where
  "and_then r k = (case r of Inl e \<Rightarrow> Inl e | Inr u \<Rightarrow> k)"

text \<open>A \<^verbatim>\<open>for\<close> loop whose body may raise: the first exception ends it.\<close>

fun for_each :: "('a \<Rightarrow> exn + unit) \<Rightarrow> 'a list \<Rightarrow> exn + unit" where
  "for_each body [] = Inr ()"
| "for_each body (x # xs) = (case body x of Inl e \<Rightarrow> Inl e | Inr u \<Rightarrow> for_each body xs)"

section \<open>Type assertions\<close>

definition assert_json :: "bool \<Rightarrow> message \<Rightarrow> exn + unit" where
  "assert_json bvalue msg = (if \<not> bvalue then Inl (JSONException msg) else Inr ())"

text \<open>\<^verbatim>\<open>int(value)\<close> for a float: truncation towards zero.\<close>

fun int_of_float :: "pyfloat \<Rightarrow> exn + int" where
  "int_of_float (Finite r) = Inr (if 0 \<le> r then \<lfloor>r\<rfloor> else \<lceil>r\<rceil>)"
| "int_of_float NaN = Inl ValueError"
| "int_of_float PosInf = Inl OverflowError"
| "int_of_float NegInf = Inl OverflowError"

text \<open>The first condition of \<^verbatim>\<open>assert_json_type\<close>:
  \<^verbatim>\<open>t is int and isinstance(value, float) and int(value) == value\<close>.\<close>

fun integral_float :: "pytype \<Rightarrow> pyval \<Rightarrow> exn + bool" where
  "integral_float TInt (PFloat f) =
     (case int_of_float f of Inl e \<Rightarrow> Inl e | Inr i \<Rightarrow> Inr (Finite (of_int i) = f))"
| "integral_float t v = Inr False"

definition assert_json_type :: "pytype \<Rightarrow> pyval \<Rightarrow> path \<Rightarrow> exn + unit" where
  "assert_json_type t v path =
     (case integral_float t v of
        Inl e \<Rightarrow> Inl e
      | Inr True \<Rightarrow> Inr ()
      | Inr False \<Rightarrow>
          if t = TFloat \<and> isinstance v TInt then Inr ()
          else if (t = TStr \<or> t = TUnicode) \<and> (isinstance v TStr \<or> isinstance v TUnicode)
            then Inr ()
          else if v = PNone \<and> t \<noteq> TDict \<and> t \<noteq> TList then Inr ()
          else if \<not> isinstance v t
            then Inl (JSONException (Type_error path v (type_of v) t))
          else Inr ())"

section \<open>JSON structures\<close>

text \<open>
  What \<^verbatim>\<open>do_validate\<close> tells apart in its first argument, in the order of its tests:
  an instance of \<^verbatim>\<open>json_validator_wrapper\<close> or of one of its three subclasses, a
  dict, a list, an instance of \<^verbatim>\<open>optional\<close>, the class \<^verbatim>\<open>anytype\<close>, a type
  object, an object with a \<^verbatim>\<open>match\<close> attribute (a compiled regular expression,
  kept as its \<^verbatim>\<open>pattern\<close> and the predicate "\<^verbatim>\<open>match\<close> returns a match object" on
  the text), and anything else.

  A wrapper holds its class, its \<^verbatim>\<open>json_structure\<close> (a dict, as the constructor's
  documentation says) and its \<^verbatim>\<open>addends\<close>, which are wrappers.
\<close>

datatype wclass = C_json_validator_wrapper | C_one_of | C_atleast_one | C_required

datatype schema =
    SType pytype
  | SRegex string "string \<Rightarrow> bool"
  | SAnytype
  | SList "schema list"
  | SDict "(string \<times> schema) list"
  | SOptional schema
  | SWrapper wrapper
  | SOther
and wrapper = Wrapper wclass "(string \<times> schema) list" "wrapper list"

fun json_structure :: "wrapper \<Rightarrow> (string \<times> schema) list" where
  "json_structure (Wrapper c js ads) = js"

fun addends :: "wrapper \<Rightarrow> wrapper list" where
  "addends (Wrapper c js ads) = ads"

fun class_of :: "wrapper \<Rightarrow> wclass" where
  "class_of (Wrapper c js ads) = c"

text \<open>The constructor calls \<^verbatim>\<open>required(d)\<close>, \<^verbatim>\<open>one_of(d)\<close>, \<^verbatim>\<open>atleast_one(d)\<close> and
  \<^verbatim>\<open>json_validator_wrapper(d)\<close>, with the default \<^verbatim>\<open>addends = []\<close>.\<close>

definition required :: "(string \<times> schema) list \<Rightarrow> wrapper" where
  "required d = Wrapper C_required d []"

definition one_of :: "(string \<times> schema) list \<Rightarrow> wrapper" where
  "one_of d = Wrapper C_one_of d []"

definition atleast_one :: "(string \<times> schema) list \<Rightarrow> wrapper" where
  "atleast_one d = Wrapper C_atleast_one d []"

definition json_validator_wrapper :: "(string \<times> schema) list \<Rightarrow> wrapper" where
  "json_validator_wrapper d = Wrapper C_json_validator_wrapper d []"

text \<open>
  \<^verbatim>\<open>__add__\<close>: the right operand is a wrapper, or a dict that is wrapped as a
  \<^verbatim>\<open>required\<close> instance first. The result is built by
  \<^verbatim>\<open>self.__class__(self.json_structure, self.addends + [other])\<close>: a new instance and
  a new list; no attribute of either operand is assigned.
\<close>

datatype operand = Instance wrapper | Plain "(string \<times> schema) list"

fun as_wrapper :: "operand \<Rightarrow> wrapper" where
  "as_wrapper (Instance w) = w"
| "as_wrapper (Plain d) = required d"

fun add :: "wrapper \<Rightarrow> operand \<Rightarrow> wrapper" where
  "add (Wrapper c js ads) other = Wrapper c js (ads @ [as_wrapper other])"

text \<open>
  \<^verbatim>\<open>required_keys\<close> ends with \<^verbatim>\<open>list(set(my_keys).union(reduce(operator.add, [...], [])))\<close>.
  The order in which a Python 2 set is iterated is fixed by the hashes of its
  elements and the order of their insertion, not by the module; it is the parameter
  \<open>si\<close>, which maps the keys in insertion order to the keys in iteration order.
  In the wrapper model \<^verbatim>\<open>json_structure\<close> is always a dict, so the test
  \<^verbatim>\<open>isinstance(self, required) or isinstance(self.json_structure, dict)\<close> holds
  whenever it is reached.
\<close>

fun required_keys :: "(string list \<Rightarrow> string list) \<Rightarrow> wrapper \<Rightarrow> string list" where
  "required_keys si (Wrapper c js ads) =
     (let my_keys = (if c = C_atleast_one \<or> c = C_one_of then [] else map fst js)
      in si (my_keys @ concat (map (required_keys si) ads)))"

fun one_of_keys :: "wrapper \<Rightarrow> string list list" where
  "one_of_keys (Wrapper c js ads) =
     (if c = C_one_of then [map fst js] else []) @ concat (map one_of_keys ads)"

fun atleast_one_keys :: "wrapper \<Rightarrow> string list list" where
  "atleast_one_keys (Wrapper c js ads) =
     (if c = C_atleast_one then [map fst js] else []) @ concat (map atleast_one_keys ads)"

text \<open>\<^verbatim>\<open>__getitem__\<close>; \<open>None\<close> stands for \<^verbatim>\<open>raise KeyError(k)\<close>, which the loop
  over the addends catches and which is the only exception the method raises.\<close>

fun getitem :: "wrapper \<Rightarrow> string \<Rightarrow> schema option"
  and getitem_addends :: "wrapper list \<Rightarrow> string \<Rightarrow> schema option" where
  "getitem (Wrapper c js ads) k =
     (case map_of js k of Some s \<Rightarrow> Some s | None \<Rightarrow> getitem_addends ads k)"
| "getitem_addends [] k = None"
| "getitem_addends (a # as) k =
     (case getitem a k of Some s \<Rightarrow> Some s | None \<Rightarrow> getitem_addends as k)"

section \<open>The validator\<close>

text \<open>\<^verbatim>\<open>key in client_json\<close> and \<^verbatim>\<open>client_json[key]\<close> on a dict.\<close>

definition has_key :: "(string \<times> 'a) list \<Rightarrow> string \<Rightarrow> bool" where
  "has_key d k = (map_of d k \<noteq> None)"

definition subscript :: "(string \<times> 'a) list \<Rightarrow> string \<Rightarrow> exn + 'a" where
  "subscript d k = (case map_of d k of None \<Rightarrow> Inl (KeyError k) | Some v \<Rightarrow> Inr v)"

fun is_optional :: "schema \<Rightarrow> bool" where
  "is_optional (SOptional s) = True"
| "is_optional s = False"

text \<open>
  The three loops of the wrapper branch of \<^verbatim>\<open>do_validate\<close>. Their bodies call
  \<^verbatim>\<open>do_validate\<close> again; here the recursive call is the argument \<open>rec\<close>.

  \<open>descend\<close> is the call
  \<^verbatim>\<open>do_validate(next_json_structure, client_json[key], path + '[%s]' % repr(key))\<close>,
  and \<open>validate_key\<close> the two statements that end the bodies of the second and the
  third loop: \<^verbatim>\<open>next_json_structure = json_structure[key]\<close> and that call.
\<close>

type_synonym validator = "schema \<Rightarrow> pyval \<Rightarrow> path \<Rightarrow> exn + unit"

definition descend ::
  "validator \<Rightarrow> schema \<Rightarrow> (string \<times> pyval) list \<Rightarrow> path \<Rightarrow> string \<Rightarrow> exn + unit" where
  "descend rec next_json_structure kvs path key =
     (case subscript kvs key of
        Inl e \<Rightarrow> Inl e
      | Inr client_value \<Rightarrow> rec next_json_structure client_value (path @ [Key key]))"

definition validate_key ::
  "validator \<Rightarrow> wrapper \<Rightarrow> (string \<times> pyval) list \<Rightarrow> path \<Rightarrow> string \<Rightarrow> exn + unit" where
  "validate_key rec w kvs path key =
     (case getitem w key of
        None \<Rightarrow> Inl (KeyError key)
      | Some next_json_structure \<Rightarrow> descend rec next_json_structure kvs path key)"

definition required_step ::
  "validator \<Rightarrow> wrapper \<Rightarrow> (string \<times> pyval) list \<Rightarrow> path \<Rightarrow> string \<Rightarrow> exn + unit" where
  "required_step rec w kvs path key =
     (case getitem w key of
        None \<Rightarrow> Inl (KeyError key)
      | Some next_json_structure \<Rightarrow>
          if \<not> is_optional next_json_structure then
            and_then (assert_json (has_key kvs key) (Key_error path key))
              (descend rec next_json_structure kvs path key)
          else if has_key kvs key then descend rec next_json_structure kvs path key
          else Inr ())"

definition one_of_step ::
  "validator \<Rightarrow> wrapper \<Rightarrow> (string \<times> pyval) list \<Rightarrow> path \<Rightarrow> string list \<Rightarrow> exn + unit" where
  "one_of_step rec w kvs path ks =
     (let keys_in_client_json = filter (has_key kvs) ks in
      if length keys_in_client_json = 0
        then Inl (JSONException (One_of_none path ks))
      else if length keys_in_client_json > 1
        then Inl (JSONException (One_of_several path ks keys_in_client_json))
      else validate_key rec w kvs path (hd keys_in_client_json))"

definition atleast_one_step ::
  "validator \<Rightarrow> wrapper \<Rightarrow> (string \<times> pyval) list \<Rightarrow> path \<Rightarrow> string list \<Rightarrow> exn + unit" where
  "atleast_one_step rec w kvs path ks =
     (let keys_in_client_json = filter (has_key kvs) ks in
      if length keys_in_client_json = 0
        then Inl (JSONException (Atleast_one_none path ks))
      else validate_key rec w kvs path (hd keys_in_client_json))"

text \<open>The wrapper branch. A value that is not a dict never passes the assertion
  (lemma \<open>assert_dict_raises\<close> below), so the loops run on a dict only.\<close>

definition validate_wrapper ::
  "(string list \<Rightarrow> string list) \<Rightarrow> validator \<Rightarrow> wrapper \<Rightarrow> pyval \<Rightarrow> path \<Rightarrow> exn + unit" where
  "validate_wrapper si rec w client_json path =
     (case client_json of
        PDict kvs \<Rightarrow>
          and_then (assert_json_type TDict client_json path)
            (and_then (for_each (required_step rec w kvs path) (required_keys si w))
              (and_then (for_each (one_of_step rec w kvs path) (one_of_keys w))
                (for_each (atleast_one_step rec w kvs path) (atleast_one_keys w))))
      | _ \<Rightarrow> assert_json_type TDict client_json path)"

lemma for_each_cong [fundef_cong]:
  "xs = ys \<Longrightarrow> (\<And>x. x \<in> set ys \<Longrightarrow> f x = g x) \<Longrightarrow> for_each f xs = for_each g ys"
  by (induction ys arbitrary: xs) (auto split: sum.splits)

lemma descend_cong:
  "(\<And>cv q. r1 nxt cv q = r2 nxt cv q) \<Longrightarrow>
   descend r1 nxt kvs path key = descend r2 nxt kvs path key"
  by (simp add: descend_def split: sum.splits)

lemma validate_wrapper_cong [fundef_cong]:
  assumes "si = si'" "w = w'" "v = v'" "path = path'"
    and "\<And>key nxt cv q. getitem w' key = Some nxt \<Longrightarrow> r1 nxt cv q = r2 nxt cv q"
  shows "validate_wrapper si r1 w v path = validate_wrapper si' r2 w' v' path'"
proof -
  have d: "descend r1 nxt kvs path' key = descend r2 nxt kvs path' key"
    if "getitem w' key = Some nxt" for nxt kvs key
    by (rule descend_cong) (rule assms(5) [OF that])
  have "validate_key r1 w' kvs path' key = validate_key r2 w' kvs path' key"
    and "required_step r1 w' kvs path' key = required_step r2 w' kvs path' key" for kvs key
    by (simp_all add: validate_key_def required_step_def d split: option.splits)
  then have "required_step r1 w' kvs path' = required_step r2 w' kvs path'"
    and "one_of_step r1 w' kvs path' = one_of_step r2 w' kvs path'"
    and "atleast_one_step r1 w' kvs path' = atleast_one_step r2 w' kvs path'" for kvs
    by (simp_all add: one_of_step_def atleast_one_step_def Let_def fun_eq_iff cong: if_cong)
  then show ?thesis
    by (simp add: validate_wrapper_def assms(1-4) cong: pyval.case_cong)
qed

text \<open>\<^verbatim>\<open>json_structure.match(client_json)\<close> for a compiled regular expression: a
  match object or \<^verbatim>\<open>None\<close> for a \<^verbatim>\<open>str\<close> or \<^verbatim>\<open>unicode\<close> argument, and
  \<^verbatim>\<open>TypeError: expected string or buffer\<close> for any other client value.\<close>

fun py_match :: "(string \<Rightarrow> bool) \<Rightarrow> pyval \<Rightarrow> exn + bool" where
  "py_match m (PStr s) = Inr (m s)"
| "py_match m (PUnicode s) = Inr (m s)"
| "py_match m v = Inl (TypeError Expected_string_or_buffer)"

text \<open>A structure found by \<^verbatim>\<open>__getitem__\<close> is a proper part of the wrapper: the
  recursion of \<^verbatim>\<open>do_validate\<close> descends in the structure.\<close>

lemma map_of_size:
  "map_of js k = Some s \<Longrightarrow> size s < size_list (size_prod (\<lambda>x. 0) size) js"
  by (induction js) (auto split: if_splits)

lemma getitem_size:
  "getitem w k = Some s \<Longrightarrow> size s < size w"
  "getitem_addends ws k = Some s \<Longrightarrow> size s < size_list size ws"
  by (induction w k and ws k rule: getitem_getitem_addends.induct)
     (auto split: option.splits dest: map_of_size)

function do_validate ::
  "(string list \<Rightarrow> string list) \<Rightarrow> schema \<Rightarrow> pyval \<Rightarrow> path \<Rightarrow> exn + unit" where
  "do_validate si (SWrapper w) client_json path =
     validate_wrapper si (do_validate si) w client_json path"
| "do_validate si (SDict d) client_json path =
     validate_wrapper si (do_validate si) (required d) client_json path"
| "do_validate si (SList js) client_json path =
     (case client_json of
        PList items \<Rightarrow>
          and_then (assert_json_type TList client_json path)
            (case js of
               [s] \<Rightarrow>
                 for_each (\<lambda>(i, client_value). do_validate si s client_value (path @ [Index i]))
                   (List.enumerate 0 items)
             | _ \<Rightarrow> Inl AssertionError)
      | _ \<Rightarrow> assert_json_type TList client_json path)"
| "do_validate si (SOptional s) client_json path =
     (if truthy client_json then do_validate si s client_json path else Inr ())"
| "do_validate si SAnytype client_json path = Inr ()"
| "do_validate si (SType t) client_json path = assert_json_type t client_json path"
| "do_validate si (SRegex pattern m) client_json path =
     (case py_match m client_json of
        Inl e \<Rightarrow> Inl e
      | Inr matched \<Rightarrow> assert_json matched (Format_error path client_json pattern))"
| "do_validate si SOther client_json path = Inl (TypeError Prohibited_type)"
  by pat_completeness auto

termination do_validate
  apply (relation "measure (\<lambda>(si, s, v, p). size s)")
  apply (auto dest: getitem_size map_of_size simp: required_def split: option.splits)
  done

text \<open>
  The decorator \<^verbatim>\<open>json_validate(json_structure)(f)\<close> applied to \<^verbatim>\<open>(self, json)\<close>:
  it validates at the default path and then calls the wrapped function. A
  \<^verbatim>\<open>JSONException\<close> is raised again after the whole input and the structure are
  attached to it; no other exception is caught.
\<close>

definition root :: path where
  "root = [Label ''client_json'']"

definition json_validate ::
  "(string list \<Rightarrow> string list) \<Rightarrow> schema \<Rightarrow> ('s \<Rightarrow> pyval \<Rightarrow> 'r) \<Rightarrow> 's \<Rightarrow> pyval \<Rightarrow> exn + 'r" where
  "json_validate si js f self json =
     (case do_validate si js json root of Inl e \<Rightarrow> Inl e | Inr u \<Rightarrow> Inr (f self json))"

section \<open>Vocabulary of the properties\<close>

text \<open>The keys a wrapper mentions: those of its own \<^verbatim>\<open>json_structure\<close> and, recursively,
  those of its addends. They are the keys for which \<^verbatim>\<open>__getitem__\<close> does not raise.\<close>

fun all_keys :: "wrapper \<Rightarrow> string list" where
  "all_keys (Wrapper c js ads) = map fst js @ concat (map all_keys ads)"

text \<open>What Python guarantees of \<^verbatim>\<open>list(set(ks))\<close>: the same elements, each once. The
  order is left open.\<close>

definition set_order :: "(string list \<Rightarrow> string list) \<Rightarrow> bool" where
  "set_order si = (\<forall>ks. set (si ks) = set ks \<and> distinct (si ks))"

text \<open>Two such orders, \<open>remdups\<close> and its reverse.\<close>

definition reversed :: "string list \<Rightarrow> string list" where
  "reversed ks = rev (remdups ks)"

text \<open>The \<^verbatim>\<open>match\<close> method of \<^verbatim>\<open>re.compile('^fo*$')\<close>, the pattern of the docstring
  of \<^verbatim>\<open>json_validate\<close>: an \<^verbatim>\<open>f\<close>, any number of \<^verbatim>\<open>o\<close>, and the end of the text
  or a last newline.\<close>

fun fo_star :: "string \<Rightarrow> bool" where
  "fo_star [] = False"
| "fo_star (c # cs) =
     (c = CHR ''f'' \<and>
      (let rest = dropWhile (\<lambda>x. x = CHR ''o'') cs in rest = [] \<or> rest = [CHR 0x0A]))"

text \<open>Structures of the docstrings:
  \<^verbatim>\<open>one_of({'a': int, 'b': [str]}) + {'c': str}\<close>,
  \<^verbatim>\<open>atleast_one({'a': int, 'b': int})\<close> and
  \<^verbatim>\<open>one_of({'a': int, 'b': int}) + required({'c': str}) + {'c': float, 'd': anytype}\<close>.\<close>

definition one_of_example :: wrapper where
  "one_of_example =
     add (one_of [(''a'', SType TInt), (''b'', SList [SType TStr])]) (Plain [(''c'', SType TStr)])"

definition atleast_one_example :: wrapper where
  "atleast_one_example = atleast_one [(''a'', SType TInt), (''b'', SType TInt)]"

definition combine_example :: wrapper where
  "combine_example =
     add (add (one_of [(''a'', SType TInt), (''b'', SType TInt)])
            (Instance (required [(''c'', SType TStr)])))
         (Plain [(''c'', SType TFloat), (''d'', SAnytype)])"

section \<open>Basic facts\<close>

lemmas evaluation =
  validate_wrapper_def required_step_def one_of_step_def atleast_one_step_def validate_key_def
  descend_def has_key_def subscript_def assert_json_def assert_json_type_def isinstance_def
  required_def one_of_def atleast_one_def json_validator_wrapper_def root_def enumerate_eq_zip

lemma and_then_simps [simp]:
  "and_then (Inl e) k = Inl e"
  "and_then (Inr u) k = k"
  by (simp_all add: and_then_def)

lemma and_then_ok: "and_then r k = Inr () \<longleftrightarrow> r = Inr () \<and> k = Inr ()"
  by (cases r) auto

lemma for_each_append:
  "for_each f (xs @ ys) = and_then (for_each f xs) (for_each f ys)"
  by (induction xs) (auto split: sum.splits)

lemma for_each_ok: "for_each f xs = Inr () \<longleftrightarrow> (\<forall>x\<in>set xs. f x = Inr ())"
  by (induction xs) (auto split: sum.splits)

lemma assert_dict_raises:
  "type_of v \<noteq> TDict \<Longrightarrow>
   assert_json_type TDict v path = Inl (JSONException (Type_error path v (type_of v) TDict))"
  by (cases v) (simp_all add: assert_json_type_def isinstance_def)

lemma assert_dict_passes [simp]: "assert_json_type TDict (PDict kvs) path = Inr ()"
  by (simp add: assert_json_type_def isinstance_def)

lemma assert_list_raises:
  "type_of v \<noteq> TList \<Longrightarrow>
   assert_json_type TList v path = Inl (JSONException (Type_error path v (type_of v) TList))"
  by (cases v) (simp_all add: assert_json_type_def isinstance_def)

lemma assert_list_passes [simp]: "assert_json_type TList (PList xs) path = Inr ()"
  by (simp add: assert_json_type_def isinstance_def)

lemma validate_wrapper_not_dict:
  "type_of v \<noteq> TDict \<Longrightarrow>
   validate_wrapper si rec w v path = Inl (JSONException (Type_error path v (type_of v) TDict))"
  by (cases v) (simp_all add: validate_wrapper_def assert_dict_raises)

lemma validate_wrapper_dict:
  "validate_wrapper si rec w (PDict kvs) path =
     and_then (for_each (required_step rec w kvs path) (required_keys si w))
       (and_then (for_each (one_of_step rec w kvs path) (one_of_keys w))
         (for_each (atleast_one_step rec w kvs path) (atleast_one_keys w)))"
  by (simp add: validate_wrapper_def)

text \<open>The dict branch is written in the source as
  \<^verbatim>\<open>do_validate(required(json_structure), client_json, path)\<close>.\<close>

lemma do_validate_dict:
  "do_validate si (SDict d) v path = do_validate si (SWrapper (required d)) v path"
  by simp

lemma do_validate_list_not_list:
  "type_of v \<noteq> TList \<Longrightarrow>
   do_validate si (SList js) v path = Inl (JSONException (Type_error path v (type_of v) TList))"
  by (cases v) (simp_all add: assert_list_raises)

lemma do_validate_list_malformed:
  "length js \<noteq> 1 \<Longrightarrow> do_validate si (SList js) (PList items) path = Inl AssertionError"
  by (cases js rule: list.exhaust; simp split: list.splits)

section \<open>Numbers at the type leaves\<close>

lemma truncation_exact_iff:
  "(Finite (of_int (if 0 \<le> r then \<lfloor>r\<rfloor> else \<lceil>r\<rceil>)) = Finite r) \<longleftrightarrow> frac r = 0"
proof
  assume "Finite (of_int (if 0 \<le> r then \<lfloor>r\<rfloor> else \<lceil>r\<rceil>)) = Finite r"
  then have "r = of_int (if 0 \<le> r then \<lfloor>r\<rfloor> else \<lceil>r\<rceil>)" by simp
  then have "r \<in> \<int>" by (metis Ints_of_int)
  then show "frac r = 0" by (simp add: frac_eq_0_iff)
next
  assume "frac r = 0"
  then have "r \<in> \<int>" by (simp add: frac_eq_0_iff)
  then show "Finite (of_int (if 0 \<le> r then \<lfloor>r\<rfloor> else \<lceil>r\<rceil>)) = Finite r"
    by (auto elim!: Ints_cases)
qed

lemma assert_int_float:
  "assert_json_type TInt (PFloat (Finite r)) path =
     (if frac r = 0 then Inr ()
      else Inl (JSONException (Type_error path (PFloat (Finite r)) TFloat TInt)))"
  using truncation_exact_iff [of r]
  by (simp add: assert_json_type_def isinstance_def del: of_int_floor_cancel of_int_ceiling_cancel)

lemma assert_int_instance:
  "isinstance v TInt \<Longrightarrow> assert_json_type TInt v path = Inr ()"
  by (cases v) (simp_all add: assert_json_type_def isinstance_def)

lemma assert_float_numeric:
  "isinstance v TInt \<or> isinstance v TFloat \<Longrightarrow> assert_json_type TFloat v path = Inr ()"
  by (cases v) (simp_all add: assert_json_type_def isinstance_def)

lemma assert_long:
  "t = TInt \<or> t = TFloat \<Longrightarrow>
   assert_json_type t (PLong n) path = Inl (JSONException (Type_error path (PLong n) TLong t))"
  by (auto simp: assert_json_type_def isinstance_def)

text \<open>
  Claim C5, as stated, fails: an integer that the decoder hands over as a \<^verbatim>\<open>long\<close>
  (here \<open>2 ^ 64\<close>) is an integral numeric value, and both the \<^verbatim>\<open>int\<close> and the
  \<^verbatim>\<open>float\<close> structure reject it with the "Type error" message.
\<close>

theorem long_rejected_counterexample:
  "do_validate remdups (SType TInt) (PLong 18446744073709551616) root =
     Inl (JSONException (Type_error root (PLong 18446744073709551616) TLong TInt)) \<and>
   do_validate remdups (SType TFloat) (PLong 18446744073709551616) root =
     Inl (JSONException (Type_error root (PLong 18446744073709551616) TLong TFloat))"
  by (simp add: assert_json_type_def isinstance_def)

text \<open>
  Claim C5, amended. The \<^verbatim>\<open>int\<close> structure accepts every instance of \<^verbatim>\<open>int\<close> (a
  \<^verbatim>\<open>bool\<close> included) and every finite float whose fractional part is zero; it rejects
  a finite float with a nonzero fractional part, and a \<^verbatim>\<open>long\<close>, with the "Type
  error" message. The \<^verbatim>\<open>float\<close> structure accepts every instance of \<^verbatim>\<open>int\<close> and
  every float, and rejects a \<^verbatim>\<open>long\<close> with the "Type error" message. So
  \<^verbatim>\<open>3.0\<close> passes \<^verbatim>\<open>int\<close> and is handed on unchanged, \<^verbatim>\<open>3.5\<close> fails \<^verbatim>\<open>int\<close>, and
  \<^verbatim>\<open>3\<close> passes \<^verbatim>\<open>float\<close>.
\<close>

theorem numeric_coercion:
  "(isinstance v TInt \<longrightarrow> do_validate si (SType TInt) v path = Inr ()) \<and>
   (frac r = 0 \<longrightarrow> do_validate si (SType TInt) (PFloat (Finite r)) path = Inr ()) \<and>
   (frac r \<noteq> 0 \<longrightarrow> do_validate si (SType TInt) (PFloat (Finite r)) path =
      Inl (JSONException (Type_error path (PFloat (Finite r)) TFloat TInt))) \<and>
   do_validate si (SType TInt) (PLong n) path =
      Inl (JSONException (Type_error path (PLong n) TLong TInt)) \<and>
   (isinstance v TInt \<or> isinstance v TFloat \<longrightarrow>
      do_validate si (SType TFloat) v path = Inr ()) \<and>
   do_validate si (SType TFloat) (PLong n) path =
      Inl (JSONException (Type_error path (PLong n) TLong TFloat)) \<and>
   json_validate si (SType TInt) (\<lambda>self x. x) self (PFloat (Finite 3)) = Inr (PFloat (Finite 3)) \<and>
   json_validate si (SType TInt) (\<lambda>self x. x) self (PFloat (Finite (7 / 2))) =
      Inl (JSONException (Type_error root (PFloat (Finite (7 / 2))) TFloat TInt)) \<and>
   json_validate si (SType TFloat) (\<lambda>self x. x) self (PInt 3) = Inr (PInt 3)"
proof -
  have three: "frac (3 :: rat) = 0" by simp
  have half: "frac (7 / 2 :: rat) \<noteq> 0"
    by (simp add: frac_eq_0_iff)
  have ex: "isinstance (PInt 3) TInt" by (simp add: isinstance_def)
  show ?thesis
    by (simp add: assert_int_float assert_int_instance assert_float_numeric assert_long
        json_validate_def three half ex)
qed

theorem numeric_coercion_witness:
  "isinstance (PInt 3) TInt \<and>
   do_validate remdups (SType TInt) (PInt 3) root = Inr () \<and>
   frac (3 :: rat) = 0 \<and>
   do_validate remdups (SType TInt) (PFloat (Finite 3)) root = Inr () \<and>
   frac (7 / 2 :: rat) \<noteq> 0 \<and>
   do_validate remdups (SType TInt) (PFloat (Finite (7 / 2))) root =
     Inl (JSONException (Type_error root (PFloat (Finite (7 / 2))) TFloat TInt)) \<and>
   isinstance (PFloat (Finite (5 / 2))) TFloat \<and>
   do_validate remdups (SType TFloat) (PFloat (Finite (5 / 2))) root = Inr ()"
  using numeric_coercion [of "PInt 3" remdups root 3 0 "()"]
    numeric_coercion [of "PFloat (Finite (5 / 2))" remdups root "7 / 2" 0 "()"]
  by (simp add: isinstance_def frac_eq_0_iff)

section \<open>None at scalar and container structures\<close>

text \<open>
  Claim C4. \<^verbatim>\<open>None\<close> is accepted by each of the scalar type structures \<^verbatim>\<open>int\<close>,
  \<^verbatim>\<open>float\<close>, \<^verbatim>\<open>str\<close> and \<^verbatim>\<open>unicode\<close>, so the decorated function is called with
  it. Presented to a wrapper of any class and with any addends, to a plain dict or
  to a list structure (of any length), \<^verbatim>\<open>None\<close> raises the \<^verbatim>\<open>JSONException\<close> with the
  "Type error" message for the required type \<^verbatim>\<open>dict\<close> or \<^verbatim>\<open>list\<close>.
\<close>

theorem null_accepted_by_scalars_only:
  "do_validate si (SType TInt) PNone path = Inr () \<and>
   do_validate si (SType TFloat) PNone path = Inr () \<and>
   do_validate si (SType TStr) PNone path = Inr () \<and>
   do_validate si (SType TUnicode) PNone path = Inr () \<and>
   do_validate si (SWrapper w) PNone path =
     Inl (JSONException (Type_error path PNone TNoneType TDict)) \<and>
   do_validate si (SDict d) PNone path =
     Inl (JSONException (Type_error path PNone TNoneType TDict)) \<and>
   do_validate si (SList js) PNone path =
     Inl (JSONException (Type_error path PNone TNoneType TList)) \<and>
   json_validate si (SType TInt) (\<lambda>self x. x) self PNone = Inr PNone \<and>
   json_validate si (SWrapper w) f self PNone =
     Inl (JSONException (Type_error root PNone TNoneType TDict))"
  by (simp add: assert_json_type_def isinstance_def validate_wrapper_not_dict
      do_validate_list_not_list json_validate_def)

theorem null_accepted_by_scalars_only_witness:
  "do_validate remdups (SType TInt) PNone root = Inr () \<and>
   do_validate remdups (SDict [(''a'', SType TInt)]) PNone root =
     Inl (JSONException (Type_error root PNone TNoneType TDict)) \<and>
   do_validate remdups (SList [SType TInt]) PNone root =
     Inl (JSONException (Type_error root PNone TNoneType TList))"
  using null_accepted_by_scalars_only [of remdups root "required []" "[(''a'', SType TInt)]"
      "[SType TInt]" "()" "\<lambda>self x. x"]
  by (simp add: validate_wrapper_def assert_json_type_def isinstance_def)

section \<open>Optional structures\<close>

lemma falsy_iff:
  "\<not> truthy v \<longleftrightarrow>
     v \<in> {PNone, PBool False, PInt 0, PLong 0, PFloat (Finite 0), PStr [], PUnicode [],
       PList [], PDict []}"
  by (cases v rule: truthy.cases) auto

lemma required_step_optional_absent:
  "getitem w key = Some (SOptional inner) \<Longrightarrow> \<not> has_key kvs key \<Longrightarrow>
   required_step rec w kvs path key = Inr ()"
  by (simp add: required_step_def)

text \<open>
  Claim C3. Against a falsy client value an \<^verbatim>\<open>optional(inner)\<close> structure validates
  whatever \<open>inner\<close> is; against a truthy value the result is that of \<open>inner\<close> on the
  same value at the same path. The falsy values are exactly \<^verbatim>\<open>None\<close>, \<^verbatim>\<open>False\<close>,
  the zero of \<^verbatim>\<open>int\<close>, \<^verbatim>\<open>long\<close> and \<^verbatim>\<open>float\<close>, the empty \<^verbatim>\<open>str\<close> and
  \<^verbatim>\<open>unicode\<close>, the empty list and the empty dict. A key that is absent from the
  client dict and whose structure is optional passes the required-key loop without
  a recursive call. In particular \<^verbatim>\<open>optional(int)\<close> accepts \<^verbatim>\<open>0\<close> and \<^verbatim>\<open>None\<close>, and the
  decorated function receives the value unchanged.
\<close>

theorem optional_falsy_short_circuit:
  "(\<not> truthy v \<longrightarrow> do_validate si (SOptional inner) v path = Inr ()) \<and>
   (truthy v \<longrightarrow> do_validate si (SOptional inner) v path = do_validate si inner v path) \<and>
   (\<not> truthy v \<longleftrightarrow>
      v \<in> {PNone, PBool False, PInt 0, PLong 0, PFloat (Finite 0), PStr [], PUnicode [],
        PList [], PDict []}) \<and>
   (getitem w key = Some (SOptional inner) \<and> \<not> has_key kvs key \<longrightarrow>
      required_step (do_validate si) w kvs path key = Inr ()) \<and>
   json_validate si (SOptional (SType TInt)) (\<lambda>self x. x) self (PInt 0) = Inr (PInt 0) \<and>
   json_validate si (SOptional (SType TInt)) (\<lambda>self x. x) self PNone = Inr PNone"
proof -
  have skip: "\<not> truthy v \<longrightarrow> do_validate si (SOptional inner) v path = Inr ()"
    by simp
  have recurse: "truthy v \<longrightarrow>
      do_validate si (SOptional inner) v path = do_validate si inner v path"
    by simp
  have absent: "getitem w key = Some (SOptional inner) \<and> \<not> has_key kvs key \<longrightarrow>
      required_step (do_validate si) w kvs path key = Inr ()"
    by (simp add: required_step_optional_absent)
  have zero: "json_validate si (SOptional (SType TInt)) (\<lambda>self x. x) self (PInt 0) = Inr (PInt 0)"
    and null: "json_validate si (SOptional (SType TInt)) (\<lambda>self x. x) self PNone = Inr PNone"
    by (simp_all add: json_validate_def)
  show ?thesis
    by (intro conjI; (rule skip recurse falsy_iff absent zero null))
qed

theorem optional_falsy_short_circuit_witness:
  "\<not> truthy (PInt 0) \<and>
   do_validate remdups (SOptional (SType TStr)) (PInt 0) root = Inr () \<and>
   truthy (PInt 7) \<and>
   do_validate remdups (SOptional (SType TStr)) (PInt 7) root =
     do_validate remdups (SType TStr) (PInt 7) root \<and>
   getitem (required [(''a'', SOptional (SType TStr))]) ''a'' = Some (SOptional (SType TStr)) \<and>
   \<not> has_key [(''b'', PInt 1)] ''a'' \<and>
   required_step (do_validate remdups) (required [(''a'', SOptional (SType TStr))])
     [(''b'', PInt 1)] root ''a'' = Inr ()"
  using optional_falsy_short_circuit [of "PInt 0" remdups "SType TStr" root
      "required [(''a'', SOptional (SType TStr))]" "''a''" "[(''b'', PInt 1)]" "()"]
    optional_falsy_short_circuit [of "PInt 7" remdups "SType TStr" root
      "required [(''a'', SOptional (SType TStr))]" "''a''" "[(''b'', PInt 1)]" "()"]
  by (simp add: required_def has_key_def)

section \<open>Regular expressions\<close>

text \<open>
  Claim C6 does not hold of the code. A client value that is not a \<^verbatim>\<open>str\<close> or a
  \<^verbatim>\<open>unicode\<close> is passed to the \<^verbatim>\<open>match\<close> method unchecked, and what comes back is
  Python's \<^verbatim>\<open>TypeError\<close>, not the \<^verbatim>\<open>JSONException\<close> with the "Format error" message;
  the decorator lets it through. On a text the structure behaves as claimed: the
  "Format error" message, with the path, the value and the pattern, exactly when the
  text does not match.
\<close>

theorem pattern_on_non_text:
  "(type_of v \<noteq> TStr \<and> type_of v \<noteq> TUnicode \<longrightarrow>
      do_validate si (SRegex pattern m) v path = Inl (TypeError Expected_string_or_buffer)) \<and>
   do_validate si (SRegex pattern m) (PStr s) path =
     (if m s then Inr () else Inl (JSONException (Format_error path (PStr s) pattern))) \<and>
   do_validate si (SRegex pattern m) (PUnicode s) path =
     (if m s then Inr () else Inl (JSONException (Format_error path (PUnicode s) pattern))) \<and>
   json_validate si (SRegex pattern m) f self (PInt n) = Inl (TypeError Expected_string_or_buffer)"
  by (cases v) (simp_all add: assert_json_def json_validate_def)

theorem pattern_on_non_text_witness:
  "type_of (PInt 5) \<noteq> TStr \<and> type_of (PInt 5) \<noteq> TUnicode \<and>
   do_validate remdups (SRegex ''^fo*$'' fo_star) (PInt 5) root =
     Inl (TypeError Expected_string_or_buffer) \<and>
   do_validate remdups (SRegex ''^fo*$'' fo_star) (PStr ''fooo'') root = Inr () \<and>
   do_validate remdups (SRegex ''^fo*$'' fo_star) (PStr ''bar'') root =
     Inl (JSONException (Format_error root (PStr ''bar'') ''^fo*$''))"
  using pattern_on_non_text [of "PInt 5" remdups "''^fo*$''" fo_star root "''fooo''"
      "\<lambda>self x. x" "()" 5]
    pattern_on_non_text [of "PInt 5" remdups "''^fo*$''" fo_star root "''bar''"
      "\<lambda>self x. x" "()" 5]
  by simp

section \<open>Faults of the structure\<close>

text \<open>
  Claim C9, as stated, fails: a list structure with two elements, validated against
  a client value that is not a list, raises the \<^verbatim>\<open>JSONException\<close> with the "Type
  error" message, because the type of the client value is asserted before the
  length of the structure.
\<close>

theorem malformed_list_client_error_counterexample:
  "do_validate remdups (SList [SType TInt, SType TStr]) (PInt 5) root =
     Inl (JSONException (Type_error root (PInt 5) TInt TList))"
  by (simp add: assert_json_type_def isinstance_def)

text \<open>
  Claim C9, amended. A list structure with other than exactly one element raises
  \<^verbatim>\<open>AssertionError\<close> whenever the client value is a list (also an empty one), and the
  decorator lets it through; when the client value is not a list, the "Type error"
  of the client value is raised instead. A structure of none of the kinds
  \<^verbatim>\<open>do_validate\<close> knows raises \<^verbatim>\<open>TypeError\<close> whatever the client value is. Neither
  exception is a \<^verbatim>\<open>JSONException\<close>, whatever its message.
\<close>

theorem schema_definition_faults:
  "(length js \<noteq> 1 \<longrightarrow> do_validate si (SList js) (PList items) path = Inl AssertionError) \<and>
   (length js \<noteq> 1 \<longrightarrow> json_validate si (SList js) f self (PList items) = Inl AssertionError) \<and>
   (type_of v \<noteq> TList \<longrightarrow>
      do_validate si (SList js) v path = Inl (JSONException (Type_error path v (type_of v) TList))) \<and>
   do_validate si SOther v path = Inl (TypeError Prohibited_type) \<and>
   json_validate si SOther f self v = Inl (TypeError Prohibited_type) \<and>
   AssertionError \<noteq> JSONException msg \<and> TypeError Prohibited_type \<noteq> JSONException msg"
proof -
  have malformed: "length js \<noteq> 1 \<longrightarrow>
      do_validate si (SList js) (PList items) path = Inl AssertionError" for path
    by (rule impI) (rule do_validate_list_malformed)
  have decorated: "length js \<noteq> 1 \<longrightarrow>
      json_validate si (SList js) f self (PList items) = Inl AssertionError"
    using malformed [of root] by (simp add: json_validate_def del: do_validate.simps)
  have client_first: "type_of v \<noteq> TList \<longrightarrow>
      do_validate si (SList js) v path = Inl (JSONException (Type_error path v (type_of v) TList))"
    by (rule impI) (rule do_validate_list_not_list)
  have other: "do_validate si SOther v path = Inl (TypeError Prohibited_type)"
    and other_decorated: "json_validate si SOther f self v = Inl (TypeError Prohibited_type)"
    by (simp_all add: json_validate_def)
  have classes: "AssertionError \<noteq> JSONException msg"
    "TypeError Prohibited_type \<noteq> JSONException msg"
    by simp_all
  show ?thesis
    by (intro conjI; (rule malformed decorated client_first other other_decorated classes))
qed

theorem schema_definition_faults_witness:
  "length [SType TInt, SType TStr] \<noteq> 1 \<and>
   do_validate remdups (SList [SType TInt, SType TStr]) (PList []) root = Inl AssertionError \<and>
   do_validate remdups (SList []) (PList [PInt 1]) root = Inl AssertionError \<and>
   type_of (PInt 5) \<noteq> TList \<and>
   do_validate remdups (SList []) (PInt 5) root =
     Inl (JSONException (Type_error root (PInt 5) TInt TList))"
  using schema_definition_faults [of "[SType TInt, SType TStr]" remdups "[]" root
      "\<lambda>self x. x" "()" "PInt 5" "Key_error root []"]
    schema_definition_faults [of "[]" remdups "[PInt 1]" root
      "\<lambda>self x. x" "()" "PInt 5" "Key_error root []"]
  by simp

section \<open>Combining structures\<close>

lemma getitem_addends_find:
  "getitem_addends ws k =
     (case find (\<lambda>a. getitem a k \<noteq> None) ws of None \<Rightarrow> None | Some a \<Rightarrow> getitem a k)"
  by (induction ws) (auto split: option.splits)

lemma getitem_addends_append:
  "getitem_addends (ws @ vs) k =
     (case getitem_addends ws k of Some s \<Rightarrow> Some s | None \<Rightarrow> getitem_addends vs k)"
  by (induction ws) (auto split: option.splits)

text \<open>
  Claim C8. \<^verbatim>\<open>a + b\<close> is a wrapper of the class of \<open>a\<close>, with the
  \<^verbatim>\<open>json_structure\<close> of \<open>a\<close> and the addends of \<open>a\<close> followed by \<open>b\<close>, where a plain
  dict \<open>b\<close> is wrapped as a \<^verbatim>\<open>required\<close> instance with no addends. The operands are
  values and the result is a new value: \<^verbatim>\<open>__add__\<close> assigns no attribute. On the
  sum, \<^verbatim>\<open>__getitem__\<close> returns the entry of the \<^verbatim>\<open>json_structure\<close> of \<open>a\<close> when the key
  is there, and otherwise what the first addend that has the key returns, in the
  order of the addends; so it is the lookup in \<open>a\<close>, and in \<open>b\<close> when \<open>a\<close> has no
  such key.
\<close>

theorem add_appends_addend:
  "add (Wrapper c js ads) (Instance b) = Wrapper c js (ads @ [b]) \<and>
   add (Wrapper c js ads) (Plain d) = Wrapper c js (ads @ [Wrapper C_required d []]) \<and>
   class_of (add a other) = class_of a \<and>
   json_structure (add a other) = json_structure a \<and>
   addends (add a other) = addends a @ [as_wrapper other] \<and>
   getitem (add a other) k =
     (case map_of (json_structure a) k of
        Some s \<Rightarrow> Some s
      | None \<Rightarrow>
          (case find (\<lambda>w. getitem w k \<noteq> None) (addends a @ [as_wrapper other]) of
             None \<Rightarrow> None
           | Some w \<Rightarrow> getitem w k)) \<and>
   getitem (add a other) k =
     (case getitem a k of Some s \<Rightarrow> Some s | None \<Rightarrow> getitem (as_wrapper other) k)"
proof -
  obtain c' js' ads' where a: "a = Wrapper c' js' ads'"
    by (cases a)
  have by_find: "getitem (add a other) k =
     (case map_of (json_structure a) k of
        Some s \<Rightarrow> Some s
      | None \<Rightarrow>
          (case find (\<lambda>w. getitem w k \<noteq> None) (addends a @ [as_wrapper other]) of
             None \<Rightarrow> None
           | Some w \<Rightarrow> getitem w k))"
    by (simp only: a add.simps getitem.simps json_structure.simps addends.simps
        getitem_addends_find)
  have by_operand: "getitem (add a other) k =
     (case getitem a k of Some s \<Rightarrow> Some s | None \<Rightarrow> getitem (as_wrapper other) k)"
    by (simp add: a getitem_addends_append split: option.splits)
  have parts: "class_of (add a other) = class_of a"
    "json_structure (add a other) = json_structure a"
    "addends (add a other) = addends a @ [as_wrapper other]"
    by (simp_all add: a)
  have built: "add (Wrapper c js ads) (Instance b) = Wrapper c js (ads @ [b])"
    "add (Wrapper c js ads) (Plain d) = Wrapper c js (ads @ [Wrapper C_required d []])"
    by (simp_all add: required_def)
  show ?thesis
    by (intro conjI; (rule by_find by_operand parts built))
qed

theorem add_appends_addend_witness:
  "add (one_of [(''a'', SType TInt), (''b'', SType TInt)]) (Plain [(''c'', SType TStr)]) =
     Wrapper C_one_of [(''a'', SType TInt), (''b'', SType TInt)]
       [Wrapper C_required [(''c'', SType TStr)] []] \<and>
   getitem combine_example ''a'' = Some (SType TInt) \<and>
   getitem combine_example ''c'' = Some (SType TStr) \<and>
   getitem combine_example ''d'' = Some SAnytype \<and>
   getitem combine_example ''e'' = None"
  using add_appends_addend [of C_one_of "[(''a'', SType TInt), (''b'', SType TInt)]" "[]"
      "required [(''c'', SType TStr)]" "[(''c'', SType TStr)]"
      "add (one_of [(''a'', SType TInt), (''b'', SType TInt)])
         (Instance (required [(''c'', SType TStr)]))"
      "Plain [(''c'', SType TFloat), (''d'', SAnytype)]" "''c''"]
  by (simp add: combine_example_def one_of_def required_def)

section \<open>Keys of the groups\<close>

lemma getitem_addends_member:
  "a \<in> set ws \<Longrightarrow> getitem a k \<noteq> None \<Longrightarrow> getitem_addends ws k \<noteq> None"
  by (induction ws) (auto split: option.splits)

lemma map_of_fst_defined: "k \<in> set (map fst js) \<Longrightarrow> map_of js k \<noteq> None"
  by (induction js) auto

text \<open>A key of a group is a key of the wrapper: the lookup of its structure in the
  second and the third loop never raises \<^verbatim>\<open>KeyError\<close>.\<close>

lemma one_of_keys_defined:
  "ks \<in> set (one_of_keys w) \<Longrightarrow> k \<in> set ks \<Longrightarrow> getitem w k \<noteq> None"
proof (induction w arbitrary: ks rule: one_of_keys.induct)
  case (1 c js ads)
  show ?case
  proof (cases "map_of js k")
    case (Some s)
    then show ?thesis by simp
  next
    case None
    with "1.prems" map_of_fst_defined [of k js]
    obtain a where a: "a \<in> set ads" "ks \<in> set (one_of_keys a)"
      by (auto split: if_splits)
    with "1.IH" "1.prems"(2) have "getitem a k \<noteq> None" by blast
    with a(1) have "getitem_addends ads k \<noteq> None" by (rule getitem_addends_member)
    with None show ?thesis by simp
  qed
qed

lemma atleast_one_keys_defined:
  "ks \<in> set (atleast_one_keys w) \<Longrightarrow> k \<in> set ks \<Longrightarrow> getitem w k \<noteq> None"
proof (induction w arbitrary: ks rule: atleast_one_keys.induct)
  case (1 c js ads)
  show ?case
  proof (cases "map_of js k")
    case (Some s)
    then show ?thesis by simp
  next
    case None
    with "1.prems" map_of_fst_defined [of k js]
    obtain a where a: "a \<in> set ads" "ks \<in> set (atleast_one_keys a)"
      by (auto split: if_splits)
    with "1.IH" "1.prems"(2) have "getitem a k \<noteq> None" by blast
    with a(1) have "getitem_addends ads k \<noteq> None" by (rule getitem_addends_member)
    with None show ?thesis by simp
  qed
qed

lemma validate_key_present:
  assumes "getitem w key = Some nxt" "map_of kvs key = Some cv"
  shows "validate_key rec w kvs path key = rec nxt cv (path @ [Key key])"
  using assms by (simp add: validate_key_def descend_def subscript_def)

lemma first_present:
  assumes "filter (has_key kvs) ks = key # rest"
  shows "key \<in> set ks" "\<exists>cv. map_of kvs key = Some cv"
proof -
  have "key \<in> set (filter (has_key kvs) ks)" by (simp add: assms)
  then show "key \<in> set ks" "\<exists>cv. map_of kvs key = Some cv"
    by (auto simp: has_key_def)
qed

section \<open>One-of groups\<close>

text \<open>
  Claim C1, as stated, fails: \<^verbatim>\<open>one_of({'a': int}) + {'c': int}\<close> contains a one-of
  group none of whose keys is in the client dict \<^verbatim>\<open>{}\<close>, and validation fails with
  the "Key error" for the required key \<^verbatim>\<open>'c'\<close>, which is checked first, not with
  the "found none" message of the group.
\<close>

theorem one_of_first_fault_counterexample:
  "do_validate remdups
     (SWrapper (add (one_of [(''a'', SType TInt)]) (Plain [(''c'', SType TInt)])))
     (PDict []) root = Inl (JSONException (Key_error root ''c''))"
  by (simp add: evaluation)

text \<open>
  Claim C1, amended. Take a wrapper, one of its one-of groups \<open>ks\<close> and a client
  dict for which the loop over the required keys and the groups before \<open>ks\<close> raise
  nothing. If no key of \<open>ks\<close> is in the client dict, validation fails with the
  "found none" message of the group; if more than one is, it fails with the "found
  several" message, whatever the values under those keys are; if exactly one is,
  the structure \<^verbatim>\<open>__getitem__\<close> returns for that key exists, and the result is that of
  validating the value under the key against it at the extended path, followed by
  the remaining groups.
\<close>

theorem one_of_group_resolution:
  assumes groups: "one_of_keys w = before @ ks # after"
    and required_ok:
      "for_each (required_step (do_validate si) w kvs path) (required_keys si w) = Inr ()"
    and before_ok: "for_each (one_of_step (do_validate si) w kvs path) before = Inr ()"
  shows "(filter (has_key kvs) ks = [] \<longrightarrow>
           do_validate si (SWrapper w) (PDict kvs) path =
             Inl (JSONException (One_of_none path ks))) \<and>
         (1 < length (filter (has_key kvs) ks) \<longrightarrow>
           do_validate si (SWrapper w) (PDict kvs) path =
             Inl (JSONException (One_of_several path ks (filter (has_key kvs) ks)))) \<and>
         (\<forall>key. filter (has_key kvs) ks = [key] \<longrightarrow>
           (\<exists>nxt cv. getitem w key = Some nxt \<and> map_of kvs key = Some cv \<and>
              do_validate si (SWrapper w) (PDict kvs) path =
                and_then (do_validate si nxt cv (path @ [Key key]))
                  (and_then (for_each (one_of_step (do_validate si) w kvs path) after)
                    (for_each (atleast_one_step (do_validate si) w kvs path)
                      (atleast_one_keys w)))))"
proof -
  let ?rec = "do_validate si"
  let ?rest = "and_then (for_each (one_of_step ?rec w kvs path) after)
      (for_each (atleast_one_step ?rec w kvs path) (atleast_one_keys w))"
  have run: "do_validate si (SWrapper w) (PDict kvs) path =
      and_then (one_of_step ?rec w kvs path ks) ?rest"
    by (simp add: validate_wrapper_dict required_ok groups for_each_append before_ok
        and_then_def split: sum.splits)
  have none: "filter (has_key kvs) ks = [] \<longrightarrow>
      do_validate si (SWrapper w) (PDict kvs) path = Inl (JSONException (One_of_none path ks))"
    by (simp add: run one_of_step_def del: do_validate.simps)
  have several: "1 < length (filter (has_key kvs) ks) \<longrightarrow>
      do_validate si (SWrapper w) (PDict kvs) path =
        Inl (JSONException (One_of_several path ks (filter (has_key kvs) ks)))"
    by (auto simp: run one_of_step_def Let_def simp del: do_validate.simps)
  have one: "\<exists>nxt cv. getitem w key = Some nxt \<and> map_of kvs key = Some cv \<and>
      do_validate si (SWrapper w) (PDict kvs) path =
        and_then (do_validate si nxt cv (path @ [Key key])) ?rest"
    if present: "filter (has_key kvs) ks = [key]" for key
  proof -
    from present have "key \<in> set ks" and "\<exists>cv. map_of kvs key = Some cv"
      by (rule first_present)+
    moreover have "ks \<in> set (one_of_keys w)" by (simp add: groups)
    ultimately obtain nxt cv where found: "getitem w key = Some nxt" "map_of kvs key = Some cv"
      using one_of_keys_defined [of ks w key] by auto
    have "one_of_step ?rec w kvs path ks = do_validate si nxt cv (path @ [Key key])"
      by (simp add: one_of_step_def present validate_key_present [OF found])
    with found show ?thesis by (simp add: run del: do_validate.simps)
  qed
  from none several one show ?thesis by blast
qed

theorem one_of_group_resolution_witness:
  "one_of_keys one_of_example = [] @ [''a'', ''b''] # [] \<and>
   for_each (required_step (do_validate remdups) one_of_example [(''c'', PStr ''x'')] root)
     (required_keys remdups one_of_example) = Inr () \<and>
   for_each (one_of_step (do_validate remdups) one_of_example [(''c'', PStr ''x'')] root) []
     = Inr () \<and>
   filter (has_key [(''c'', PStr ''x'')]) [''a'', ''b''] = [] \<and>
   do_validate remdups (SWrapper one_of_example) (PDict [(''c'', PStr ''x'')]) root =
     Inl (JSONException (One_of_none root [''a'', ''b''])) \<and>
   for_each (required_step (do_validate remdups) one_of_example
       [(''a'', PInt 1), (''b'', PList [PStr ''x'']), (''c'', PStr ''x'')] root)
     (required_keys remdups one_of_example) = Inr () \<and>
   1 < length (filter (has_key [(''a'', PInt 1), (''b'', PList [PStr ''x'']), (''c'', PStr ''x'')])
     [''a'', ''b'']) \<and>
   do_validate remdups (SType TInt) (PInt 1) (root @ [Key ''a'']) = Inr () \<and>
   do_validate remdups (SList [SType TStr]) (PList [PStr ''x'']) (root @ [Key ''b'']) = Inr () \<and>
   do_validate remdups (SWrapper one_of_example)
     (PDict [(''a'', PInt 1), (''b'', PList [PStr ''x'']), (''c'', PStr ''x'')]) root =
     Inl (JSONException (One_of_several root [''a'', ''b''] [''a'', ''b''])) \<and>
   for_each (required_step (do_validate remdups) one_of_example
       [(''a'', PStr ''bad''), (''c'', PStr ''x'')] root)
     (required_keys remdups one_of_example) = Inr () \<and>
   filter (has_key [(''a'', PStr ''bad''), (''c'', PStr ''x'')]) [''a'', ''b''] = [''a''] \<and>
   do_validate remdups (SWrapper one_of_example)
     (PDict [(''a'', PStr ''bad''), (''c'', PStr ''x'')]) root =
     do_validate remdups (SType TInt) (PStr ''bad'') (root @ [Key ''a''])"
  using one_of_group_resolution [of one_of_example "[]" "[''a'', ''b'']" "[]" remdups
      "[(''c'', PStr ''x'')]" root]
    one_of_group_resolution [of one_of_example "[]" "[''a'', ''b'']" "[]" remdups
      "[(''a'', PInt 1), (''b'', PList [PStr ''x'']), (''c'', PStr ''x'')]" root]
    one_of_group_resolution [of one_of_example "[]" "[''a'', ''b'']" "[]" remdups
      "[(''a'', PStr ''bad''), (''c'', PStr ''x'')]" root]
  by (simp add: one_of_example_def evaluation)

section \<open>At-least-one groups\<close>

text \<open>
  Claim C2, as stated, fails in the same way: for
  \<^verbatim>\<open>atleast_one({'a': int}) + {'c': int}\<close> and the client dict \<^verbatim>\<open>{}\<close> no key of the
  group is present, and validation fails with the "Key error" for the required key
  \<^verbatim>\<open>'c'\<close>.
\<close>

theorem atleast_one_first_fault_counterexample:
  "do_validate remdups
     (SWrapper (add (atleast_one [(''a'', SType TInt)]) (Plain [(''c'', SType TInt)])))
     (PDict []) root = Inl (JSONException (Key_error root ''c''))"
  by (simp add: evaluation)

text \<open>
  Claim C2, amended. Take a wrapper, one of its at-least-one groups \<open>ks\<close> and a
  client dict for which the loop over the required keys, the loop over the one-of
  groups and the at-least-one groups before \<open>ks\<close> raise nothing. If no key of \<open>ks\<close>
  is in the client dict, validation fails with the "*at least* one" message of
  the group. Otherwise the result is that of validating the value under the first
  key of \<open>ks\<close> (in the order of the group's dict) that the client dict has,
  followed by the remaining groups: the values under the other present keys of
  the group do not enter it. So \<^verbatim>\<open>atleast_one({'a': int, 'b': int})\<close> accepts
  \<^verbatim>\<open>{'a': 1, 'b': 'bad'}\<close>.
\<close>

theorem atleast_one_group_resolution:
  assumes groups: "atleast_one_keys w = before @ ks # after"
    and required_ok:
      "for_each (required_step (do_validate si) w kvs path) (required_keys si w) = Inr ()"
    and one_of_ok: "for_each (one_of_step (do_validate si) w kvs path) (one_of_keys w) = Inr ()"
    and before_ok: "for_each (atleast_one_step (do_validate si) w kvs path) before = Inr ()"
  shows "(filter (has_key kvs) ks = [] \<longrightarrow>
           do_validate si (SWrapper w) (PDict kvs) path =
             Inl (JSONException (Atleast_one_none path ks))) \<and>
         (\<forall>key others. filter (has_key kvs) ks = key # others \<longrightarrow>
           (\<exists>nxt cv. getitem w key = Some nxt \<and> map_of kvs key = Some cv \<and>
              do_validate si (SWrapper w) (PDict kvs) path =
                and_then (do_validate si nxt cv (path @ [Key key]))
                  (for_each (atleast_one_step (do_validate si) w kvs path) after)))"
proof -
  let ?rec = "do_validate si"
  let ?rest = "for_each (atleast_one_step ?rec w kvs path) after"
  have run: "do_validate si (SWrapper w) (PDict kvs) path =
      and_then (atleast_one_step ?rec w kvs path ks) ?rest"
    by (simp add: validate_wrapper_dict required_ok one_of_ok groups for_each_append before_ok
        and_then_def split: sum.splits)
  have none: "filter (has_key kvs) ks = [] \<longrightarrow>
      do_validate si (SWrapper w) (PDict kvs) path =
        Inl (JSONException (Atleast_one_none path ks))"
    by (simp add: run atleast_one_step_def del: do_validate.simps)
  have some: "\<exists>nxt cv. getitem w key = Some nxt \<and> map_of kvs key = Some cv \<and>
      do_validate si (SWrapper w) (PDict kvs) path =
        and_then (do_validate si nxt cv (path @ [Key key])) ?rest"
    if present: "filter (has_key kvs) ks = key # others" for key others
  proof -
    from present have "key \<in> set ks" and "\<exists>cv. map_of kvs key = Some cv"
      by (rule first_present)+
    moreover have "ks \<in> set (atleast_one_keys w)" by (simp add: groups)
    ultimately obtain nxt cv where found: "getitem w key = Some nxt" "map_of kvs key = Some cv"
      using atleast_one_keys_defined [of ks w key] by auto
    have "atleast_one_step ?rec w kvs path ks = do_validate si nxt cv (path @ [Key key])"
      by (simp add: atleast_one_step_def present validate_key_present [OF found])
    with found show ?thesis by (simp add: run del: do_validate.simps)
  qed
  from none some show ?thesis by blast
qed

theorem atleast_one_group_resolution_witness:
  "atleast_one_keys atleast_one_example = [] @ [''a'', ''b''] # [] \<and>
   for_each (required_step (do_validate remdups) atleast_one_example [] root)
     (required_keys remdups atleast_one_example) = Inr () \<and>
   for_each (one_of_step (do_validate remdups) atleast_one_example [] root)
     (one_of_keys atleast_one_example) = Inr () \<and>
   for_each (atleast_one_step (do_validate remdups) atleast_one_example [] root) [] = Inr () \<and>
   filter (has_key []) [''a'', ''b''] = [] \<and>
   do_validate remdups (SWrapper atleast_one_example) (PDict []) root =
     Inl (JSONException (Atleast_one_none root [''a'', ''b''])) \<and>
   for_each (required_step (do_validate remdups) atleast_one_example
       [(''a'', PInt 1), (''b'', PStr ''bad'')] root)
     (required_keys remdups atleast_one_example) = Inr () \<and>
   for_each (one_of_step (do_validate remdups) atleast_one_example
       [(''a'', PInt 1), (''b'', PStr ''bad'')] root)
     (one_of_keys atleast_one_example) = Inr () \<and>
   filter (has_key [(''a'', PInt 1), (''b'', PStr ''bad'')]) [''a'', ''b''] = ''a'' # [''b''] \<and>
   do_validate remdups (SType TInt) (PStr ''bad'') (root @ [Key ''b'']) =
     Inl (JSONException (Type_error (root @ [Key ''b'']) (PStr ''bad'') TStr TInt)) \<and>
   do_validate remdups (SWrapper atleast_one_example)
     (PDict [(''a'', PInt 1), (''b'', PStr ''bad'')]) root = Inr ()"
  using atleast_one_group_resolution [of atleast_one_example "[]" "[''a'', ''b'']" "[]" remdups
      "[]" root]
    atleast_one_group_resolution [of atleast_one_example "[]" "[''a'', ''b'']" "[]" remdups
      "[(''a'', PInt 1), (''b'', PStr ''bad'')]" root]
  by (simp add: atleast_one_example_def evaluation)

section \<open>Keys the structure does not mention\<close>

lemma getitem_all_keys:
  "getitem w k \<noteq> None \<Longrightarrow> k \<in> set (all_keys w)"
  "getitem_addends ws k \<noteq> None \<Longrightarrow> \<exists>a \<in> set ws. k \<in> set (all_keys a)"
proof (induction w k and ws k rule: getitem_getitem_addends.induct)
  case (1 c js ads k)
  show ?case
  proof (cases "map_of js k")
    case None
    with 1 show ?thesis by auto
  next
    case (Some s)
    then have "(k, s) \<in> set js" by (rule map_of_SomeD)
    then have "k \<in> fst ` set js" by force
    then show ?thesis by simp
  qed
next
  case (2 k)
  then show ?case by simp
next
  case (3 a as k)
  then show ?case by (cases "getitem a k") auto
qed

lemma descend_agree:
  "map_of kvs' key = map_of kvs key \<Longrightarrow>
   descend rec nxt kvs' path key = descend rec nxt kvs path key"
  by (simp add: descend_def subscript_def)

lemma validate_key_agree:
  assumes "\<forall>k\<in>set (all_keys w). map_of kvs' k = map_of kvs k"
  shows "validate_key rec w kvs' path key = validate_key rec w kvs path key"
proof (cases "getitem w key")
  case None
  then show ?thesis by (simp add: validate_key_def)
next
  case (Some nxt)
  then have "key \<in> set (all_keys w)" by (simp add: getitem_all_keys(1))
  with assms have same: "map_of kvs' key = map_of kvs key" by blast
  show ?thesis by (simp add: validate_key_def Some descend_agree [OF same])
qed

lemma required_step_agree:
  assumes "\<forall>k\<in>set (all_keys w). map_of kvs' k = map_of kvs k"
  shows "required_step rec w kvs' path key = required_step rec w kvs path key"
proof (cases "getitem w key")
  case None
  then show ?thesis by (simp add: required_step_def)
next
  case (Some nxt)
  then have "key \<in> set (all_keys w)" by (simp add: getitem_all_keys(1))
  with assms have same: "map_of kvs' key = map_of kvs key" by blast
  then have "has_key kvs' key = has_key kvs key" by (simp add: has_key_def)
  then show ?thesis by (simp add: required_step_def Some descend_agree [OF same])
qed

lemma present_agree:
  assumes "\<forall>k\<in>set (all_keys w). map_of kvs' k = map_of kvs k"
    and "\<forall>k\<in>set ks. getitem w k \<noteq> None"
  shows "filter (has_key kvs') ks = filter (has_key kvs) ks"
proof (rule filter_cong [OF refl])
  fix k assume "k \<in> set ks"
  with assms(2) have "k \<in> set (all_keys w)" by (simp add: getitem_all_keys(1))
  with assms(1) show "has_key kvs' k = has_key kvs k" by (simp add: has_key_def)
qed

lemma validate_wrapper_agree:
  assumes "\<forall>k\<in>set (all_keys w). map_of kvs' k = map_of kvs k"
  shows "validate_wrapper si rec w (PDict kvs') path = validate_wrapper si rec w (PDict kvs) path"
proof -
  have req: "required_step rec w kvs' path = required_step rec w kvs path"
    by (rule ext) (rule required_step_agree [OF assms])
  have one: "for_each (one_of_step rec w kvs' path) (one_of_keys w) =
      for_each (one_of_step rec w kvs path) (one_of_keys w)"
  proof (rule for_each_cong [OF refl])
    fix ks assume "ks \<in> set (one_of_keys w)"
    then have "\<forall>k\<in>set ks. getitem w k \<noteq> None" by (simp add: one_of_keys_defined)
    then show "one_of_step rec w kvs' path ks = one_of_step rec w kvs path ks"
      by (simp add: one_of_step_def present_agree [OF assms] validate_key_agree [OF assms]
          Let_def cong: if_cong)
  qed
  have atl: "for_each (atleast_one_step rec w kvs' path) (atleast_one_keys w) =
      for_each (atleast_one_step rec w kvs path) (atleast_one_keys w)"
  proof (rule for_each_cong [OF refl])
    fix ks assume "ks \<in> set (atleast_one_keys w)"
    then have "\<forall>k\<in>set ks. getitem w k \<noteq> None" by (simp add: atleast_one_keys_defined)
    then show "atleast_one_step rec w kvs' path ks = atleast_one_step rec w kvs path ks"
      by (simp add: atleast_one_step_def present_agree [OF assms] validate_key_agree [OF assms]
          Let_def cong: if_cong)
  qed
  show ?thesis by (simp add: validate_wrapper_dict req one atl)
qed

lemma map_of_extra:
  "k \<notin> set (map fst extra) \<Longrightarrow> map_of (extra @ kvs) k = map_of kvs k"
  by (induction extra) auto

text \<open>
  Claim C10. For a wrapper (and for a plain dict structure) the result of
  validation, the exception included, is the same for two client dicts that agree
  on every key the structure mentions, in its own \<^verbatim>\<open>json_structure\<close> or in that of
  an addend. In particular entries under other keys can be added to a client dict
  without changing the result.
\<close>

theorem extra_keys_ignored:
  "((\<forall>k\<in>set (all_keys w). map_of kvs' k = map_of kvs k) \<longrightarrow>
      do_validate si (SWrapper w) (PDict kvs') path = do_validate si (SWrapper w) (PDict kvs) path) \<and>
   ((\<forall>k\<in>set (map fst d). map_of kvs' k = map_of kvs k) \<longrightarrow>
      do_validate si (SDict d) (PDict kvs') path = do_validate si (SDict d) (PDict kvs) path) \<and>
   ((\<forall>k\<in>set (map fst extra). k \<notin> set (all_keys w)) \<longrightarrow>
      do_validate si (SWrapper w) (PDict (extra @ kvs)) path =
        do_validate si (SWrapper w) (PDict kvs) path)"
proof -
  have wrapper: "do_validate si (SWrapper w) (PDict kvs') path =
      do_validate si (SWrapper w) (PDict kvs) path"
    if "\<forall>k\<in>set (all_keys w). map_of kvs' k = map_of kvs k" for w kvs'
    using that by (simp add: validate_wrapper_agree)
  have dict: "do_validate si (SDict d) (PDict kvs') path = do_validate si (SDict d) (PDict kvs) path"
    if "\<forall>k\<in>set (map fst d). map_of kvs' k = map_of kvs k"
    using wrapper [of "required d" kvs'] that by (simp add: required_def)
  have added: "do_validate si (SWrapper w) (PDict (extra @ kvs)) path =
      do_validate si (SWrapper w) (PDict kvs) path"
    if "\<forall>k\<in>set (map fst extra). k \<notin> set (all_keys w)"
  proof (rule wrapper, rule ballI)
    fix k assume "k \<in> set (all_keys w)"
    with that have "k \<notin> set (map fst extra)" by blast
    then show "map_of (extra @ kvs) k = map_of kvs k" by (rule map_of_extra)
  qed
  from wrapper dict added show ?thesis by blast
qed

theorem extra_keys_ignored_witness:
  "all_keys one_of_example = [''a'', ''b'', ''c''] \<and>
   map_of [(''x'', PInt 0), (''a'', PInt 1), (''c'', PStr ''s''), (''y'', PNone)] ''a'' =
     map_of [(''a'', PInt 1), (''c'', PStr ''s'')] ''a'' \<and>
   map_of [(''x'', PInt 0), (''a'', PInt 1), (''c'', PStr ''s''), (''y'', PNone)] ''b'' =
     map_of [(''a'', PInt 1), (''c'', PStr ''s'')] ''b'' \<and>
   map_of [(''x'', PInt 0), (''a'', PInt 1), (''c'', PStr ''s''), (''y'', PNone)] ''c'' =
     map_of [(''a'', PInt 1), (''c'', PStr ''s'')] ''c'' \<and>
   do_validate remdups (SWrapper one_of_example)
     (PDict [(''x'', PInt 0), (''a'', PInt 1), (''c'', PStr ''s''), (''y'', PNone)]) root =
   do_validate remdups (SWrapper one_of_example) (PDict [(''a'', PInt 1), (''c'', PStr ''s'')]) root \<and>
   do_validate remdups (SWrapper one_of_example) (PDict [(''a'', PInt 1), (''c'', PStr ''s'')]) root =
     Inr ()"
  using extra_keys_ignored [of one_of_example
      "[(''x'', PInt 0), (''a'', PInt 1), (''c'', PStr ''s''), (''y'', PNone)]"
      "[(''a'', PInt 1), (''c'', PStr ''s'')]" remdups root "[]" "[]"]
  by (simp add: one_of_example_def evaluation)

section \<open>The order of the checks\<close>

text \<open>A loop that raises at an element after passing all the elements before it
  raises that exception.\<close>

lemma for_each_first_fault:
  "for_each f xs = Inr () \<Longrightarrow> f x = Inl e \<Longrightarrow> for_each f (xs @ x # ys) = Inl e"
  by (simp add: for_each_append)

lemma enumerate_split:
  "List.enumerate 0 (xs @ x # ys) =
     List.enumerate 0 xs @ (length xs, x) # List.enumerate (Suc (length xs)) ys"
  by (simp add: enumerate_append_eq)

text \<open>
  Claim C7, as stated, fails: the required keys are checked in the order in which
  Python iterates a set, which the structure does not declare. For the structure
  \<^verbatim>\<open>{'a': int, 'b': int}\<close> and the client dict \<^verbatim>\<open>{}\<close>, one set order reports the
  missing key \<^verbatim>\<open>'a'\<close> and another the missing key \<^verbatim>\<open>'b'\<close>.
\<close>

theorem first_error_follows_set_order_counterexample:
  "set_order remdups \<and> set_order reversed \<and>
   do_validate remdups (SDict [(''a'', SType TInt), (''b'', SType TInt)]) (PDict []) root =
     Inl (JSONException (Key_error root ''a'')) \<and>
   do_validate reversed (SDict [(''a'', SType TInt), (''b'', SType TInt)]) (PDict []) root =
     Inl (JSONException (Key_error root ''b''))"
  by (simp add: set_order_def reversed_def evaluation)

text \<open>
  Claim C7, amended. Validation is deterministic relative to the iteration order
  of Python's sets and dicts. The required keys are checked in the order of the
  list \<^verbatim>\<open>required_keys\<close> returns, which is the iteration order of a set and not an
  order the structure declares; then the one-of groups and then the at-least-one
  groups are resolved in the order of the addends, the keys of a group in the
  iteration order of its dict (the order of the field list here); the items of a
  list are validated by index. The first exception met in that order ends the
  validation and is its result, and validation succeeds exactly when every
  element of the three loops passes. So two runs under the same iteration orders
  give the same result. Under other iteration orders the first exception can be
  another one (the counterexample above), and with an at-least-one group a value
  that is accepted under one order of the group's keys is rejected under the
  other.
\<close>

theorem first_fault_in_iteration_order:
  "(required_keys si w = before @ key # after \<and>
      for_each (required_step (do_validate si) w kvs path) before = Inr () \<and>
      required_step (do_validate si) w kvs path key = Inl e \<longrightarrow>
        do_validate si (SWrapper w) (PDict kvs) path = Inl e) \<and>
   (for_each (required_step (do_validate si) w kvs path) (required_keys si w) = Inr () \<and>
      one_of_keys w = before_groups @ ks # after_groups \<and>
      for_each (one_of_step (do_validate si) w kvs path) before_groups = Inr () \<and>
      one_of_step (do_validate si) w kvs path ks = Inl e \<longrightarrow>
        do_validate si (SWrapper w) (PDict kvs) path = Inl e) \<and>
   (for_each (required_step (do_validate si) w kvs path) (required_keys si w) = Inr () \<and>
      for_each (one_of_step (do_validate si) w kvs path) (one_of_keys w) = Inr () \<and>
      atleast_one_keys w = before_groups @ ks # after_groups \<and>
      for_each (atleast_one_step (do_validate si) w kvs path) before_groups = Inr () \<and>
      atleast_one_step (do_validate si) w kvs path ks = Inl e \<longrightarrow>
        do_validate si (SWrapper w) (PDict kvs) path = Inl e) \<and>
   (for_each (\<lambda>(i, client_value). do_validate si s client_value (path @ [Index i]))
        (List.enumerate 0 before_items) = Inr () \<and>
      do_validate si s item (path @ [Index (length before_items)]) = Inl e \<longrightarrow>
        do_validate si (SList [s]) (PList (before_items @ item # after_items)) path = Inl e) \<and>
   (do_validate si (SWrapper w) (PDict kvs) path = Inr () \<longleftrightarrow>
      (\<forall>key\<in>set (required_keys si w). required_step (do_validate si) w kvs path key = Inr ()) \<and>
      (\<forall>ks\<in>set (one_of_keys w). one_of_step (do_validate si) w kvs path ks = Inr ()) \<and>
      (\<forall>ks\<in>set (atleast_one_keys w). atleast_one_step (do_validate si) w kvs path ks = Inr ())) \<and>
   (si [] = [] \<longrightarrow>
      do_validate si (SWrapper (atleast_one [(''a'', SType TInt), (''b'', SType TInt)]))
        (PDict [(''a'', PInt 1), (''b'', PStr ''bad'')]) path = Inr () \<and>
      do_validate si (SWrapper (atleast_one [(''b'', SType TInt), (''a'', SType TInt)]))
        (PDict [(''a'', PInt 1), (''b'', PStr ''bad'')]) path =
        Inl (JSONException (Type_error (path @ [Key ''b'']) (PStr ''bad'') TStr TInt)))"
proof -
  let ?rec = "do_validate si"
  have required: "do_validate si (SWrapper w) (PDict kvs) path = Inl e"
    if "required_keys si w = before @ key # after"
      and "for_each (required_step ?rec w kvs path) before = Inr ()"
      and "required_step ?rec w kvs path key = Inl e"
    using that by (simp add: validate_wrapper_dict for_each_first_fault)
  have one_of: "do_validate si (SWrapper w) (PDict kvs) path = Inl e"
    if "for_each (required_step ?rec w kvs path) (required_keys si w) = Inr ()"
      and "one_of_keys w = before_groups @ ks # after_groups"
      and "for_each (one_of_step ?rec w kvs path) before_groups = Inr ()"
      and "one_of_step ?rec w kvs path ks = Inl e"
    using that by (simp add: validate_wrapper_dict for_each_first_fault)
  have atleast_one: "do_validate si (SWrapper w) (PDict kvs) path = Inl e"
    if "for_each (required_step ?rec w kvs path) (required_keys si w) = Inr ()"
      and "for_each (one_of_step ?rec w kvs path) (one_of_keys w) = Inr ()"
      and "atleast_one_keys w = before_groups @ ks # after_groups"
      and "for_each (atleast_one_step ?rec w kvs path) before_groups = Inr ()"
      and "atleast_one_step ?rec w kvs path ks = Inl e"
    using that by (simp add: validate_wrapper_dict for_each_first_fault)
  have items: "do_validate si (SList [s]) (PList (before_items @ item # after_items)) path = Inl e"
    if "for_each (\<lambda>(i, client_value). do_validate si s client_value (path @ [Index i]))
          (List.enumerate 0 before_items) = Inr ()"
      and "do_validate si s item (path @ [Index (length before_items)]) = Inl e"
    using that by (simp add: enumerate_split for_each_first_fault del: for_each.simps)
  have success: "do_validate si (SWrapper w) (PDict kvs) path = Inr () \<longleftrightarrow>
      (\<forall>key\<in>set (required_keys si w). required_step ?rec w kvs path key = Inr ()) \<and>
      (\<forall>ks\<in>set (one_of_keys w). one_of_step ?rec w kvs path ks = Inr ()) \<and>
      (\<forall>ks\<in>set (atleast_one_keys w). atleast_one_step ?rec w kvs path ks = Inr ())"
    by (simp add: validate_wrapper_dict and_then_ok for_each_ok)
  have group_order: "do_validate si (SWrapper (atleast_one [(''a'', SType TInt), (''b'', SType TInt)]))
        (PDict [(''a'', PInt 1), (''b'', PStr ''bad'')]) path = Inr () \<and>
      do_validate si (SWrapper (atleast_one [(''b'', SType TInt), (''a'', SType TInt)]))
        (PDict [(''a'', PInt 1), (''b'', PStr ''bad'')]) path =
        Inl (JSONException (Type_error (path @ [Key ''b'']) (PStr ''bad'') TStr TInt))"
    if "si [] = []"
    using that by (simp add: evaluation)
  from required one_of atleast_one items success group_order show ?thesis by blast
qed

theorem first_fault_in_iteration_order_witness:
  "required_keys remdups (required [(''a'', SType TInt), (''b'', SType TInt)]) = [''a''] @ ''b'' # [] \<and>
   for_each (required_step (do_validate remdups)
       (required [(''a'', SType TInt), (''b'', SType TInt)]) [(''a'', PInt 1)] root) [''a''] = Inr () \<and>
   required_step (do_validate remdups)
       (required [(''a'', SType TInt), (''b'', SType TInt)]) [(''a'', PInt 1)] root ''b'' =
     Inl (JSONException (Key_error root ''b'')) \<and>
   do_validate remdups (SWrapper (required [(''a'', SType TInt), (''b'', SType TInt)]))
       (PDict [(''a'', PInt 1)]) root = Inl (JSONException (Key_error root ''b'')) \<and>
   for_each (required_step (do_validate remdups) one_of_example [(''c'', PStr ''x'')] root)
       (required_keys remdups one_of_example) = Inr () \<and>
   one_of_keys one_of_example = [] @ [''a'', ''b''] # [] \<and>
   one_of_step (do_validate remdups) one_of_example [(''c'', PStr ''x'')] root [''a'', ''b''] =
     Inl (JSONException (One_of_none root [''a'', ''b''])) \<and>
   do_validate remdups (SWrapper one_of_example) (PDict [(''c'', PStr ''x'')]) root =
     Inl (JSONException (One_of_none root [''a'', ''b''])) \<and>
   for_each (\<lambda>(i, client_value). do_validate remdups (SType TStr) client_value (root @ [Index i]))
       (List.enumerate 0 [PStr ''a'', PStr ''b'']) = Inr () \<and>
   do_validate remdups (SType TStr) (PInt 1) (root @ [Index (length [PStr ''a'', PStr ''b''])]) =
     Inl (JSONException (Type_error (root @ [Index 2]) (PInt 1) TInt TStr)) \<and>
   do_validate remdups (SList [SType TStr]) (PList ([PStr ''a'', PStr ''b''] @ PInt 1 # [])) root =
     Inl (JSONException (Type_error (root @ [Index 2]) (PInt 1) TInt TStr)) \<and>
   remdups [] = ([] :: string list) \<and>
   do_validate remdups (SWrapper (atleast_one [(''a'', SType TInt), (''b'', SType TInt)]))
       (PDict [(''a'', PInt 1), (''b'', PStr ''bad'')]) root = Inr () \<and>
   do_validate remdups (SWrapper (atleast_one [(''b'', SType TInt), (''a'', SType TInt)]))
       (PDict [(''a'', PInt 1), (''b'', PStr ''bad'')]) root =
     Inl (JSONException (Type_error (root @ [Key ''b'']) (PStr ''bad'') TStr TInt))"
  using first_fault_in_iteration_order [of remdups
      "required [(''a'', SType TInt), (''b'', SType TInt)]" "[''a'']" "''b''" "[]"
      "[(''a'', PInt 1)]" root "JSONException (Key_error root ''b'')" "[]" "[]" "[]"
      "SType TStr" "[]" "PNone" "[]"]
    first_fault_in_iteration_order [of remdups one_of_example "[]" "''c''" "[]"
      "[(''c'', PStr ''x'')]" root "JSONException (One_of_none root [''a'', ''b''])"
      "[]" "[''a'', ''b'']" "[]" "SType TStr" "[]" "PNone" "[]"]
    first_fault_in_iteration_order [of remdups one_of_example "[]" "''c''" "[]"
      "[(''c'', PStr ''x'')]" root
      "JSONException (Type_error (root @ [Index 2]) (PInt 1) TInt TStr)"
      "[]" "[''a'', ''b'']" "[]" "SType TStr" "[PStr ''a'', PStr ''b'']" "PInt 1" "[]"]
  by (simp add: one_of_example_def evaluation)

end
